theory Spec2Isabelle
  imports Main
begin

section \<open>Strings and escape sequences\<close>

text \<open>
  The program is Python 2: a \<open>str\<close> is a sequence of bytes, here a \<open>string\<close>
  (a list of 8-bit characters). \<open>ESC\<close> is the byte written \<open>\033\<close> in the source,
  \<open>NL\<close> is \<open>'\n'\<close> and \<open>CR\<close> is \<open>'\r'\<close>.
\<close>

definition ESC :: char where
  "ESC = CHR 0x1B"

definition NL :: char where
  "NL = CHR 0x0A"

definition CR :: char where
  "CR = CHR 0x0D"

text \<open>The decimal rendering that \<open>"%d" % n\<close> produces for a natural number.\<close>

fun decimal :: "nat \<Rightarrow> string" where
  "decimal n =
     (if n < 10 then [''0123456789'' ! n]
      else decimal (n div 10) @ [''0123456789'' ! (n mod 10)])"

declare decimal.simps [simp del]

text \<open>
  \<open>("\033[1;%dm" % (30 + i)) for i in range(8)\<close> and the same with \<open>2\<close> for the dark
  colors; the tuple on the left of the assignment names the entries by position.
\<close>

definition LT :: "nat \<Rightarrow> string" where
  "LT i = ESC # ''[1;'' @ decimal (30 + i) @ ''m''"

definition DK :: "nat \<Rightarrow> string" where
  "DK i = ESC # ''[2;'' @ decimal (30 + i) @ ''m''"

definition LT_RED :: string where
  "LT_RED = LT 1"

definition LT_YELLOW :: string where
  "LT_YELLOW = LT 3"

definition LT_BLUE :: string where
  "LT_BLUE = LT 4"

definition NO_COLOR :: string where
  "NO_COLOR = ESC # ''[0m''"

definition COLORS :: "char \<rightharpoonup> string" where
  "COLORS = [CHR ''W'' \<mapsto> LT_YELLOW,
             CHR ''I'' \<mapsto> '''',
             CHR ''D'' \<mapsto> LT_BLUE,
             CHR ''C'' \<mapsto> LT_RED,
             CHR ''E'' \<mapsto> LT_RED]"

text \<open>\<open>string.find(c)\<close>: the index of the first occurrence, or \<open>-1\<close>.\<close>

primrec str_find :: "string \<Rightarrow> char \<Rightarrow> int" where
  "str_find [] c = - 1"
| "str_find (x # xs) c =
     (if x = c then 0
      else (let r = str_find xs c in if r < 0 then - 1 else r + 1))"

section \<open>OutputWriter\<close>

record writer =
  buffered_output :: string
  column :: nat
  colored :: bool

definition OutputWriter_init :: writer where
  "OutputWriter_init = \<lparr>buffered_output = '''', column = 0, colored = False\<rparr>"

text \<open>
  One call of \<open>sys.stdout.write(prefix + line_string + suffix)\<close>, with its three
  operands kept apart so that the bytes the writer inserts can be told from the bytes it
  passes on. \<open>start_column\<close> is the value of \<open>self.column\<close> at the call and \<open>tagged\<close>
  records whether the branch that looks up \<open>COLORS\<close> was taken in that iteration.
\<close>

record emission =
  start_column :: nat
  tagged :: bool
  prefix_str :: string
  line_string :: string
  suffix_str :: string

definition bytes_of :: "emission \<Rightarrow> string" where
  "bytes_of e = prefix_str e @ line_string e @ suffix_str e"

text \<open>What reaches the console, and what of it came from the input.\<close>

definition console_bytes :: "emission list \<Rightarrow> string" where
  "console_bytes out = concat (map bytes_of out)"

definition payload :: "emission list \<Rightarrow> string" where
  "payload out = concat (map line_string out)"

text \<open>The condition of the \<open>if\<close> that picks the color prefix.\<close>

definition tag_match :: "writer \<Rightarrow> string \<Rightarrow> bool" where
  "tag_match w s \<longleftrightarrow>
     column w = 0 \<and> length s \<ge> 2 \<and> s ! 1 = CHR '':'' \<and> s ! 0 \<in> dom COLORS"

lemma str_find_drop_shorter:
  "\<not> str_find s c < 0 \<Longrightarrow> length s - nat (str_find s c + 1) < length s"
  by (cases s) auto

text \<open>
  The \<open>while True\<close> loop of \<open>write\<close>. It goes round again only after a newline was
  found, on the rest of the string behind that newline, which is shorter.
\<close>

function write_loop :: "writer \<Rightarrow> string \<Rightarrow> emission list \<Rightarrow> writer \<times> emission list" where
  "write_loop w s out =
     (let nl_index = str_find s NL in
      if column w = 0 \<and> nl_index < 0 \<and> length s < 2
      then (w\<lparr>buffered_output := s\<rparr>, out)
      else
        let line = (if nl_index < 0 then s else take (nat (nl_index + 1)) s);
            hit = tag_match w s;
            prefix = (if hit then the (COLORS (s ! 0)) else '''');
            w1 = (if hit then w\<lparr>colored := True\<rparr> else w);
            suffix = (if nl_index \<ge> 0 \<and> colored w1 then NO_COLOR else '''');
            out1 = out @ [\<lparr>start_column = column w, tagged = hit, prefix_str = prefix,
                           line_string = line, suffix_str = suffix\<rparr>];
            w2 = w1\<lparr>column := column w1 + length line\<rparr>
        in if nl_index < 0 then (w2, out1)
           else write_loop (w2\<lparr>column := 0\<rparr>) (drop (nat (nl_index + 1)) s) out1)"
  by pat_completeness auto
termination
  by (relation "measure (\<lambda>(w, s, out). length s)")
     (auto intro: str_find_drop_shorter)

declare write_loop.simps [simp del]

definition OutputWriter_write :: "writer \<Rightarrow> string \<Rightarrow> writer \<times> emission list" where
  "OutputWriter_write w string =
     (if length (buffered_output w) > 0
      then write_loop (w\<lparr>buffered_output := ''''\<rparr>) (buffered_output w @ string) []
      else write_loop w string [])"

text \<open>A sequence of calls on one writer, collecting everything written.\<close>

fun write_all :: "writer \<Rightarrow> string list \<Rightarrow> writer \<times> emission list" where
  "write_all w [] = (w, [])"
| "write_all w (c # cs) =
     (let (w1, out1) = OutputWriter_write w c; (w2, out2) = write_all w1 cs in (w2, out1 @ out2))"

section \<open>Devices and is_teensy\<close>

text \<open>
  The exceptions that the modelled code can raise: a missing key in \<open>device[...]\<close>,
  an index out of range, pyserial's \<open>SerialException\<close>, and any other failure of the
  operating system that a call into the environment may report.
\<close>

datatype py_error = KeyError | IndexError | SerialException | OSError

text \<open>
  A pyudev device as far as the program reads it: the attributes \<open>device_node\<close> and
  \<open>action\<close> (\<open>None\<close> for a device that was enumerated rather than reported by the
  monitor) and the udev properties, which \<open>in\<close> and \<open>device[key]\<close> look up.
\<close>

record device =
  device_node :: string
  action :: "string option"
  properties :: "string \<rightharpoonup> string"

definition getitem :: "device \<Rightarrow> string \<Rightarrow> py_error + string" where
  "getitem dev key = (case properties dev key of None \<Rightarrow> Inl KeyError | Some v \<Rightarrow> Inr v)"

definition startswith :: "string \<Rightarrow> string \<Rightarrow> bool" where
  "startswith s p \<longleftrightarrow> take (length p) s = p"

definition is_teensy :: "device \<Rightarrow> string option \<Rightarrow> py_error + bool" where
  "is_teensy dev serial_num =
     (if properties dev ''ID_VENDOR'' = None then Inr False
      else case getitem dev ''ID_VENDOR'' of
        Inl e \<Rightarrow> Inl e
      | Inr vendor \<Rightarrow>
          if \<not> startswith vendor ''Teensy'' then Inr False
          else case serial_num of
            None \<Rightarrow> Inr True
          | Some n \<Rightarrow>
              (case getitem dev ''ID_SERIAL_SHORT'' of
                 Inl e \<Rightarrow> Inl e
               | Inr sn \<Rightarrow> Inr (sn = n)))"

section \<open>teensy_mon\<close>

text \<open>
  The state of one call of \<open>teensy_mon\<close>: the port name, whether the serial port is
  open, the \<open>OutputWriter\<close>, everything written to standard output (one entry per
  \<open>write\<close> or \<open>print\<close>) and everything written to the serial port.
\<close>

record session =
  port_name :: string
  serial_open :: bool
  writer_of :: writer
  stdout :: "string list"
  serial_tx :: "string list"

text \<open>
  One entry of the list that \<open>epoll.poll()\<close> returns, with what the environment
  answers to the calls made for it. The three file descriptors are those of three different
  open files, so exactly one of the three comparisons with \<open>fileno\<close> holds.
  \<^item> \<open>Monitor_ready dev\<close>: the monitor is readable and \<open>monitor.poll()\<close> returns \<open>dev\<close>;
  \<^item> \<open>Serial_ready r\<close>: the serial port is readable and \<open>serial_port.read(256)\<close> raises
    (\<open>Inl\<close>) or returns data (\<open>Inr\<close>);
  \<^item> \<open>Stdin_ready data wr\<close>: standard input is readable, \<open>sys.stdin.read(1)\<close> returns
    \<open>data\<close>, and the following \<open>serial_port.write\<close> raises \<open>wr\<close> if it is not \<open>None\<close>.
\<close>

datatype fd_event =
  Monitor_ready device
| Serial_ready "py_error + string"
| Stdin_ready string "py_error option"

text \<open>
  How far the function got: still in its loop, returned to its caller, or left by an
  exception that nothing inside the function caught.
\<close>

datatype outcome = Running | Returned | Raised py_error

text \<open>
  \<open>print 'Teensy device @', port_name, ' disconnected.'\<close> (Python 2: the items are
  separated by one space and a newline ends the line), and the two other messages.
\<close>

definition print_disconnected :: "string \<Rightarrow> string" where
  "print_disconnected port =
     ''Teensy device @'' @ '' '' @ port @ '' '' @ '' disconnected.'' @ [NL]"

definition print_connected :: "string \<Rightarrow> string \<Rightarrow> string" where
  "print_connected port serial_num =
     ''Teensy device connected @'' @ port @ '' (serial '' @ serial_num @ '')'' @ [NL]"

definition print_unable :: "string \<Rightarrow> string" where
  "print_unable port = ''Unable to open port '' @ [CHR 0x27] @ port @ [CHR 0x27] @ [NL]"

text \<open>The body of \<open>for fileno, _ in events\<close> for one entry.\<close>

fun handle_event :: "session \<Rightarrow> fd_event \<Rightarrow> outcome \<times> session" where
  "handle_event s (Monitor_ready dev) =
     (if device_node dev \<noteq> port_name s \<or> action dev \<noteq> Some ''remove''
      then (Running, s)
      else (Returned, s\<lparr>stdout := stdout s @ [print_disconnected (port_name s)],
                         serial_open := False\<rparr>))"
| "handle_event s (Serial_ready r) =
     (case r of
        Inl e \<Rightarrow>
          if e = SerialException
          then (Returned, s\<lparr>stdout := stdout s @ [print_disconnected (port_name s)],
                             serial_open := False\<rparr>)
          else (Raised e, s)
      | Inr data \<Rightarrow>
          (let (w, out) = OutputWriter_write (writer_of s) data
           in (Running, s\<lparr>writer_of := w, stdout := stdout s @ map bytes_of out\<rparr>)))"
| "handle_event s (Stdin_ready data wr) =
     (if data = [] then (Raised IndexError, s)
      else
        let sent = (if data ! 0 = NL then [CR] else data)
        in case wr of
             Some e \<Rightarrow> (Raised e, s)
           | None \<Rightarrow> (Running, s\<lparr>serial_tx := serial_tx s @ [sent]\<rparr>))"

text \<open>The \<open>for\<close> loop over one result of \<open>epoll.poll()\<close>.\<close>

fun service :: "session \<Rightarrow> fd_event list \<Rightarrow> outcome \<times> session" where
  "service s [] = (Running, s)"
| "service s (ev # evs) =
     (case handle_event s ev of
        (Running, s') \<Rightarrow> service s' evs
      | (res, s') \<Rightarrow> (res, s'))"

text \<open>
  The \<open>while True\<close> loop, run on the results of the successive calls of \<open>epoll.poll()\<close>.
  When they are used up the function is still blocked in \<open>epoll.poll()\<close>: \<open>Running\<close>.
\<close>

fun teensy_mon_loop :: "session \<Rightarrow> fd_event list list \<Rightarrow> outcome \<times> session" where
  "teensy_mon_loop s [] = (Running, s)"
| "teensy_mon_loop s (events # polls) =
     (case service s events of
        (Running, s') \<Rightarrow> teensy_mon_loop s' polls
      | (res, s') \<Rightarrow> (res, s'))"

text \<open>
  \<open>teensy_mon(monitor, device)\<close>. \<open>open_result\<close> is what \<open>serial.Serial(...)\<close> raises,
  if anything.
\<close>

definition teensy_mon ::
  "device \<Rightarrow> py_error option \<Rightarrow> fd_event list list \<Rightarrow> outcome \<times> session" where
  "teensy_mon dev open_result polls =
     (let s0 = \<lparr>port_name = device_node dev, serial_open = False,
                 writer_of = OutputWriter_init, stdout = [], serial_tx = []\<rparr>
      in case getitem dev ''ID_SERIAL_SHORT'' of
           Inl e \<Rightarrow> (Raised e, s0)
         | Inr serial_num \<Rightarrow>
             (let s1 = s0\<lparr>stdout := [print_connected (device_node dev) serial_num]\<rparr>
              in case open_result of
                   Some e \<Rightarrow>
                     if e = SerialException
                     then (Returned,
                           s1\<lparr>stdout := stdout s1 @ [print_unable (device_node dev)]\<rparr>)
                     else (Raised e, s1)
                 | None \<Rightarrow> teensy_mon_loop (s1\<lparr>serial_open := True\<rparr>) polls))"

section \<open>Properties of what is written\<close>

text \<open>
  Two properties of one call of \<open>sys.stdout.write\<close>, used to state the invariants of
  the writer: a prefix is chosen only at column 0, and a segment that ends in a newline
  carries the reset escape.
\<close>

definition at_line_start :: "emission \<Rightarrow> bool" where
  "at_line_start e \<longleftrightarrow> (tagged e \<or> prefix_str e \<noteq> [] \<longrightarrow> start_column e = 0)"

definition ends_line :: "emission \<Rightarrow> bool" where
  "ends_line e \<longleftrightarrow> line_string e \<noteq> [] \<and> last (line_string e) = NL"

definition reset_after_nl :: "emission \<Rightarrow> bool" where
  "reset_after_nl e \<longleftrightarrow> (ends_line e \<longrightarrow> suffix_str e = NO_COLOR)"

section \<open>What main does when teensy_mon is left\<close>

text \<open>
  \<open>main\<close> calls \<open>teensy_mon\<close> inside \<open>try\<close>, from the loop over the devices that
  are present and from the loop over \<open>monitor.poll\<close>. When the call returns, the loop
  that made it goes on, and \<open>main\<close> is waiting for a device. When the call is left by an
  exception, \<open>except Exception\<close> prints the traceback, the terminal settings are
  restored and \<open>main\<close> returns: the process ends. All of \<open>py_error\<close> are subclasses of
  \<open>Exception\<close>.
\<close>

datatype main_phase = In_session | Waiting_for_device | Process_ended

definition main_after :: "outcome \<Rightarrow> main_phase" where
  "main_after res =
     (case res of
        Running \<Rightarrow> In_session
      | Returned \<Rightarrow> Waiting_for_device
      | Raised e \<Rightarrow> Process_ended)"

section \<open>Facts about the loop of write\<close>

lemma str_find_notin: "c \<notin> set s \<Longrightarrow> str_find s c = - 1"
  by (induction s) auto

lemma str_find_first: "c \<notin> set a \<Longrightarrow> str_find (a @ c # r) c = int (length a)"
  by (induction a) (auto simp: Let_def)

lemma nat_int_Suc: "nat (int n + 1) = Suc n"
  by simp

text \<open>One round of the loop on a string without a newline: it is the last round.\<close>

lemma write_loop_no_nl:
  "NL \<notin> set s \<Longrightarrow>
   write_loop w s out =
     (if column w = 0 \<and> length s < 2 then (w\<lparr>buffered_output := s\<rparr>, out)
      else (w\<lparr>colored := colored w \<or> tag_match w s, column := column w + length s\<rparr>,
            out @ [\<lparr>start_column = column w, tagged = tag_match w s,
                     prefix_str = (if tag_match w s then the (COLORS (s ! 0)) else []),
                     line_string = s, suffix_str = []\<rparr>]))"
  by (subst write_loop.simps) (auto simp: str_find_notin Let_def)

text \<open>One round of the loop on a string whose first newline is behind \<open>a\<close>.\<close>

lemma write_loop_nl:
  "NL \<notin> set a \<Longrightarrow>
   write_loop w (a @ NL # r) out =
     write_loop (w\<lparr>colored := colored w \<or> tag_match w (a @ NL # r), column := 0\<rparr>) r
       (out @ [\<lparr>start_column = column w, tagged = tag_match w (a @ NL # r),
                prefix_str = (if tag_match w (a @ NL # r)
                              then the (COLORS ((a @ NL # r) ! 0)) else []),
                line_string = a @ [NL],
                suffix_str = (if colored w \<or> tag_match w (a @ NL # r)
                              then NO_COLOR else [])\<rparr>])"
  by (subst write_loop.simps) (auto simp: str_find_first nat_int_Suc Let_def)

lemma string_nl_cases:
  obtains (no_nl) "NL \<notin> set s" | (nl) a r where "s = a @ NL # r" "NL \<notin> set a"
  using split_list_first [of NL s] by blast

lemmas writer_eval =
  OutputWriter_write_def OutputWriter_init_def write_loop.simps tag_match_def COLORS_def
  NL_def ESC_def NO_COLOR_def LT_YELLOW_def LT_BLUE_def LT_RED_def LT_def decimal.simps
  console_bytes_def payload_def bytes_of_def Let_def

section \<open>The accumulator, the payload and the pending bytes\<close>

text \<open>
  The loop only appends to what was written before it: it can be run on the empty list
  and the earlier output put in front afterwards.
\<close>

lemma write_loop_acc:
  "write_loop w s out = (fst (write_loop w s []), out @ snd (write_loop w s []))"
proof (induction s arbitrary: w out rule: length_induct)
  case (1 s)
  show ?case
  proof (cases s rule: string_nl_cases)
    case no_nl
    then show ?thesis by (simp add: write_loop_no_nl)
  next
    case (nl a r)
    have len: "length r < length s" using nl by simp
    define w' where "w' = w\<lparr>colored := colored w \<or> tag_match w (a @ NL # r), column := 0\<rparr>"
    define e where "e = \<lparr>start_column = column w, tagged = tag_match w (a @ NL # r),
                prefix_str = (if tag_match w (a @ NL # r)
                              then the (COLORS ((a @ NL # r) ! 0)) else []),
                line_string = a @ [NL],
                suffix_str = (if colored w \<or> tag_match w (a @ NL # r)
                              then NO_COLOR else [])\<rparr>"
    have step: "write_loop w s acc = write_loop w' r (acc @ [e])" for acc
      unfolding nl(1) w'_def e_def by (rule write_loop_nl [OF nl(2)])
    have ih1: "write_loop w' r (out @ [e]) =
                 (fst (write_loop w' r []), (out @ [e]) @ snd (write_loop w' r []))"
      using 1 [rule_format, OF len] .
    have ih2: "write_loop w' r ([] @ [e]) =
                 (fst (write_loop w' r []), ([] @ [e]) @ snd (write_loop w' r []))"
      using 1 [rule_format, OF len] .
    show ?thesis
      unfolding step ih1 ih2 by simp
  qed
qed

text \<open>
  With nothing waiting in \<open>buffered_output\<close>, the loop writes its whole string, except
  for what it leaves waiting.
\<close>

lemma write_loop_payload:
  "buffered_output w = [] \<Longrightarrow>
   payload (snd (write_loop w s out)) @ buffered_output (fst (write_loop w s out))
     = payload out @ s"
proof (induction s arbitrary: w out rule: length_induct)
  case (1 s)
  show ?case
  proof (cases s rule: string_nl_cases)
    case no_nl
    then show ?thesis using 1(2) by (simp add: write_loop_no_nl payload_def)
  next
    case (nl a r)
    have len: "length r < length s" using nl by simp
    show ?thesis
      unfolding nl(1) write_loop_nl [OF nl(2)]
      using 1(1) [rule_format, OF len] 1(2)
      by (simp add: payload_def)
  qed
qed

lemma write_payload:
  "payload (snd (OutputWriter_write w s)) @ buffered_output (fst (OutputWriter_write w s))
     = buffered_output w @ s"
  using write_loop_payload [of "w\<lparr>buffered_output := []\<rparr>" "buffered_output w @ s" "[]"]
    write_loop_payload [of w s "[]"]
  by (simp add: OutputWriter_write_def payload_def)

lemma write_all_payload:
  "payload (snd (write_all w cs)) @ buffered_output (fst (write_all w cs))
     = buffered_output w @ concat cs"
proof (induction cs arbitrary: w)
  case Nil
  show ?case by (simp add: payload_def)
next
  case (Cons c cs)
  obtain w1 out1 where a: "OutputWriter_write w c = (w1, out1)" by (cases "OutputWriter_write w c")
  obtain w2 out2 where b: "write_all w1 cs = (w2, out2)" by (cases "write_all w1 cs")
  from write_payload [of w c] a have p1: "payload out1 @ buffered_output w1 = buffered_output w @ c" by simp
  from Cons [of w1] b have p2: "payload out2 @ buffered_output w2 = buffered_output w1 @ concat cs" by simp
  have "payload (out1 @ out2) @ buffered_output w2 = payload out1 @ (payload out2 @ buffered_output w2)"
    by (simp add: payload_def)
  also have "\<dots> = (payload out1 @ buffered_output w1) @ concat cs" using p2 by simp
  also have "\<dots> = buffered_output w @ c @ concat cs" using p1 by simp
  finally show ?case using a b by simp
qed

section \<open>Invariants of the writer\<close>

text \<open>The loop leaves fewer than 2 bytes waiting.\<close>

lemma write_loop_buffered:
  "buffered_output w = [] \<Longrightarrow> length (buffered_output (fst (write_loop w s out))) < 2"
proof (induction s arbitrary: w out rule: length_induct)
  case (1 s)
  show ?case
  proof (cases s rule: string_nl_cases)
    case no_nl
    then show ?thesis using 1(2) by (simp add: write_loop_no_nl)
  next
    case (nl a r)
    have len: "length r < length s" using nl by simp
    show ?thesis
      unfolding nl(1) write_loop_nl [OF nl(2)]
      using 1(1) [rule_format, OF len] 1(2) by simp
  qed
qed

lemma write_buffered: "length (buffered_output (fst (OutputWriter_write w s))) < 2"
  by (simp add: OutputWriter_write_def write_loop_buffered)

text \<open>The \<open>COLORS\<close> branch is taken, and a prefix chosen, at column 0 only.\<close>

lemma write_loop_tagged:
  "list_all at_line_start out \<Longrightarrow> list_all at_line_start (snd (write_loop w s out))"
proof (induction s arbitrary: w out rule: length_induct)
  case (1 s)
  show ?case
  proof (cases s rule: string_nl_cases)
    case no_nl
    then show ?thesis using 1(2)
      by (simp add: write_loop_no_nl, simp add: tag_match_def at_line_start_def)
  next
    case (nl a r)
    have len: "length r < length s" using nl by simp
    have ih: "list_all at_line_start out' \<Longrightarrow>
              list_all at_line_start (snd (write_loop w' r out'))" for w' out'
      using 1(1) len by blast
    show ?thesis
      unfolding nl(1) write_loop_nl [OF nl(2)]
      by (rule ih, use 1(2) in simp, simp add: tag_match_def at_line_start_def)
  qed
qed

lemma write_tagged: "list_all at_line_start (snd (OutputWriter_write w s))"
  unfolding OutputWriter_write_def using write_loop_tagged [of "[]"] by simp

text \<open>Nothing in the loop clears \<open>colored\<close>.\<close>

lemma write_loop_colored:
  "colored w \<Longrightarrow> colored (fst (write_loop w s out))"
proof (induction s arbitrary: w out rule: length_induct)
  case (1 s)
  show ?case
  proof (cases s rule: string_nl_cases)
    case no_nl
    then show ?thesis using 1(2) by (simp add: write_loop_no_nl)
  next
    case (nl a r)
    have len: "length r < length s" using nl by simp
    show ?thesis
      unfolding nl(1) write_loop_nl [OF nl(2)]
      using 1(1) [rule_format, OF len] 1(2) by simp
  qed
qed

lemma write_loop_reset:
  "colored w \<Longrightarrow> list_all reset_after_nl out \<Longrightarrow>
   list_all reset_after_nl (snd (write_loop w s out))"
proof (induction s arbitrary: w out rule: length_induct)
  case (1 s)
  show ?case
  proof (cases s rule: string_nl_cases)
    case no_nl
    have last_s: "\<not> (s \<noteq> [] \<and> last s = NL)" using no_nl last_in_set [of s] by metis
    show ?thesis using no_nl 1(3)
      by (simp add: write_loop_no_nl, simp add: ends_line_def reset_after_nl_def last_s)
  next
    case (nl a r)
    have len: "length r < length s" using nl by simp
    have ih: "colored w' \<Longrightarrow> list_all reset_after_nl out' \<Longrightarrow>
              list_all reset_after_nl (snd (write_loop w' r out'))" for w' out'
      using 1(1) len by blast
    show ?thesis
      unfolding nl(1) write_loop_nl [OF nl(2)]
      by (rule ih, use 1(2) in simp, use 1(3) in simp,
          use 1(2) in \<open>simp add: reset_after_nl_def\<close>)
  qed
qed

lemma write_colored: "colored w \<Longrightarrow> colored (fst (OutputWriter_write w s))"
  by (simp add: OutputWriter_write_def write_loop_colored)

lemma write_reset:
  "colored w \<Longrightarrow> list_all reset_after_nl (snd (OutputWriter_write w s))"
  unfolding OutputWriter_write_def using write_loop_reset [of _ "[]"] by simp

lemma write_all_colored_reset:
  "colored w \<Longrightarrow>
   colored (fst (write_all w cs)) \<and> list_all reset_after_nl (snd (write_all w cs))"
proof (induction cs arbitrary: w)
  case Nil
  then show ?case by simp
next
  case (Cons c cs)
  obtain w1 out1 where a: "OutputWriter_write w c = (w1, out1)" by (cases "OutputWriter_write w c")
  obtain w2 out2 where b: "write_all w1 cs = (w2, out2)" by (cases "write_all w1 cs")
  have c1: "colored w1" using write_colored [OF Cons.prems, of c] a by simp
  have r1: "list_all reset_after_nl out1"
    using write_reset [OF Cons.prems, of c] a by simp
  from Cons.IH [OF c1] b
  have "colored w2" and "list_all reset_after_nl out2" by simp_all
  with r1 show ?case using a b by simp
qed

section \<open>Independence of the chunk boundaries\<close>

lemma console_bytes_append [simp]:
  "console_bytes (xs @ ys) = console_bytes xs @ console_bytes ys"
  by (simp add: console_bytes_def)

lemma console_bytes_Cons [simp]:
  "console_bytes (e # xs) = bytes_of e @ console_bytes xs"
  by (simp add: console_bytes_def)

lemma console_bytes_Nil [simp]: "console_bytes [] = []"
  by (simp add: console_bytes_def)

text \<open>
  The tag is looked for in the first two bytes of a line. Bytes that arrive later do not
  change what is found there, and a newline is neither a tag letter nor a colon.
\<close>

lemma tag_match_column: "column w \<noteq> 0 \<Longrightarrow> \<not> tag_match w s"
  by (simp add: tag_match_def)

lemma tag_match_append:
  "column w \<noteq> 0 \<or> length s \<ge> 2 \<Longrightarrow> tag_match w (s @ t) = tag_match w s"
  by (auto simp: tag_match_def nth_append)

lemma NL_not_tag: "NL \<notin> dom COLORS"
  by (simp add: COLORS_def NL_def)

lemma tag_match_nl_append:
  "tag_match w (a @ NL # r @ t) = tag_match w (a @ NL # r)"
proof (cases a)
  case Nil
  then show ?thesis using NL_not_tag by (simp add: tag_match_def)
next
  case (Cons x a')
  then show ?thesis by (cases a') (simp_all add: tag_match_def NL_def)
qed

lemma tag_match_hd_append:
  "tag_match w s \<Longrightarrow> (s @ t) ! 0 = s ! 0"
  by (auto simp: tag_match_def nth_append)

lemma writer_buffered_id: "buffered_output w = [] \<Longrightarrow> w\<lparr>buffered_output := []\<rparr> = w"
  by (cases w) simp

lemma write_loop_fst_acc: "fst (write_loop w s out) = fst (write_loop w s [])"
  using write_loop_acc [of w s out] by simp

lemma write_loop_snd_acc: "snd (write_loop w s out) = out @ snd (write_loop w s [])"
  using write_loop_acc [of w s out] by simp

text \<open>
  Running the loop on \<open>s\<close> and then calling \<open>write\<close> with \<open>t\<close> puts the same bytes
  on the console, and ends in the same state, as running the loop on \<open>s @ t\<close>. The
  calls of \<open>sys.stdout.write\<close> may be cut differently: a line that is written in one
  piece on the right may be written in two on the left.
\<close>

lemma write_loop_append:
  assumes "buffered_output w = []"
  shows "fst (OutputWriter_write (fst (write_loop w s [])) t) = fst (write_loop w (s @ t) [])
       \<and> console_bytes (snd (write_loop w s []))
           @ console_bytes (snd (OutputWriter_write (fst (write_loop w s [])) t))
         = console_bytes (snd (write_loop w (s @ t) []))"
  using assms
proof (induction s arbitrary: w rule: length_induct)
  case (1 s)
  note buf = \<open>buffered_output w = []\<close>
  show ?case
  proof (cases s rule: string_nl_cases)
    case (nl a r)
    have len: "length r < length s" using nl by simp
    have eq: "s @ t = a @ NL # (r @ t)" using nl by simp
    have hd: "tag_match w (a @ NL # r) \<Longrightarrow> (a @ NL # r @ t) ! 0 = (a @ NL # r) ! 0"
      using tag_match_hd_append [of w "a @ NL # r" t] by simp
    define w' where "w' = w\<lparr>colored := colored w \<or> tag_match w (a @ NL # r), column := 0\<rparr>"
    have buf': "buffered_output w' = []" using buf by (simp add: w'_def)
    have ih: "fst (OutputWriter_write (fst (write_loop w' r [])) t) = fst (write_loop w' (r @ t) [])
       \<and> console_bytes (snd (write_loop w' r []))
           @ console_bytes (snd (OutputWriter_write (fst (write_loop w' r [])) t))
         = console_bytes (snd (write_loop w' (r @ t) []))"
      using 1(1) len buf' by blast
    define e where "e = \<lparr>start_column = column w, tagged = tag_match w (a @ NL # r),
                prefix_str = (if tag_match w (a @ NL # r)
                              then the (COLORS ((a @ NL # r) ! 0)) else []),
                line_string = a @ [NL],
                suffix_str = (if colored w \<or> tag_match w (a @ NL # r)
                              then NO_COLOR else [])\<rparr>"
    have l: "write_loop w s [] = write_loop w' r [e]"
      unfolding nl(1) w'_def e_def write_loop_nl [OF nl(2)] by simp
    have r: "write_loop w (s @ t) [] = write_loop w' (r @ t) [e]"
      unfolding eq w'_def e_def write_loop_nl [OF nl(2)] using hd
      by (simp add: tag_match_nl_append)
    have l1: "fst (write_loop w' r [e]) = fst (write_loop w' r [])"
      by (rule write_loop_fst_acc)
    have l2: "snd (write_loop w' r [e]) = [e] @ snd (write_loop w' r [])"
      by (rule write_loop_snd_acc)
    have r1: "fst (write_loop w' (r @ t) [e]) = fst (write_loop w' (r @ t) [])"
      by (rule write_loop_fst_acc)
    have r2: "snd (write_loop w' (r @ t) [e]) = [e] @ snd (write_loop w' (r @ t) [])"
      by (rule write_loop_snd_acc)
    show ?thesis
      unfolding l r l1 l2 r1 r2 using ih by simp
  next
    case no_nl
    show ?thesis
    proof (cases "column w = 0 \<and> length s < 2")
      case True
      then have l: "write_loop w s [] = (w\<lparr>buffered_output := s\<rparr>, [])"
        using no_nl by (simp add: write_loop_no_nl)
      show ?thesis
      proof (cases "s = []")
        case True
        show ?thesis unfolding l using buf True
          by (simp add: OutputWriter_write_def writer_buffered_id)
      next
        case False
        show ?thesis unfolding l using buf False
          by (simp add: OutputWriter_write_def writer_buffered_id)
      qed
    next
      case False
      define w1 where "w1 = w\<lparr>colored := colored w \<or> tag_match w s, column := column w + length s\<rparr>"
      define e1 where "e1 = \<lparr>start_column = column w, tagged = tag_match w s,
                     prefix_str = (if tag_match w s then the (COLORS (s ! 0)) else []),
                     line_string = s, suffix_str = []\<rparr>"
      have l: "write_loop w s [] = (w1, [e1])"
        using no_nl False by (simp add: write_loop_no_nl w1_def e1_def)
      have col1: "column w1 \<noteq> 0" using False by (auto simp: w1_def)
      have buf1: "buffered_output w1 = []" using buf by (simp add: w1_def)
      have wr: "OutputWriter_write w1 t = write_loop w1 t []"
        using buf1 by (simp add: OutputWriter_write_def)
      have tm: "tag_match w (s @ x) = tag_match w s" for x
        using False by (intro tag_match_append) auto
      have hd: "tag_match w s \<Longrightarrow> (s @ x) ! 0 = s ! 0" for x
        by (rule tag_match_hd_append)
      show ?thesis
      proof (cases t rule: string_nl_cases)
        case no_nl_t: no_nl
        have nn: "NL \<notin> set (s @ t)" using no_nl no_nl_t by simp
        define w2 where "w2 = w1\<lparr>column := column w1 + length t\<rparr>"
        define et where "et = \<lparr>start_column = column w1, tagged = False, prefix_str = [],
                      line_string = t, suffix_str = []\<rparr>"
        define est where "est = \<lparr>start_column = column w, tagged = tag_match w s,
                      prefix_str = (if tag_match w s then the (COLORS (s ! 0)) else []),
                      line_string = s @ t, suffix_str = []\<rparr>"
        have nb1: "\<not> (column w1 = 0 \<and> length t < 2)" using col1 by simp
        have nb: "\<not> (column w = 0 \<and> length (s @ t) < 2)" using False by auto
        have tm1: "tag_match w1 t = False" using col1 by (simp add: tag_match_column)
        have lt: "write_loop w1 t [] = (w2, [et])"
          unfolding write_loop_no_nl [OF no_nl_t] if_not_P [OF nb1] tm1
          by (simp add: w2_def et_def)
        have rt: "write_loop w (s @ t) [] = (w2, [est])"
          unfolding write_loop_no_nl [OF nn] if_not_P [OF nb] tm using hd [of t]
          by (simp add: w2_def est_def w1_def)
        have bytes: "bytes_of e1 @ bytes_of et = bytes_of est"
          by (simp add: e1_def et_def est_def bytes_of_def)
        show ?thesis
          unfolding l fst_conv snd_conv wr lt rt using bytes by simp
      next
        case (nl a r)
        have nn: "NL \<notin> set (s @ a)" using no_nl nl by simp
        have eq: "s @ t = (s @ a) @ NL # r" using nl by simp
        have tm': "tag_match w (s @ a @ NL # r) = tag_match w s"
          using tm [of "a @ NL # r"] by simp
        have hd': "tag_match w s \<longrightarrow> (s @ a @ NL # r) ! 0 = s ! 0"
          using hd [of "a @ NL # r"] by simp
        define w2 where "w2 = w1\<lparr>column := 0\<rparr>"
        define ea where "ea = \<lparr>start_column = column w1, tagged = False, prefix_str = [],
                      line_string = a @ [NL],
                      suffix_str = (if colored w1 then NO_COLOR else [])\<rparr>"
        define esa where "esa = \<lparr>start_column = column w, tagged = tag_match w s,
                      prefix_str = (if tag_match w s then the (COLORS (s ! 0)) else []),
                      line_string = s @ a @ [NL],
                      suffix_str = (if colored w1 then NO_COLOR else [])\<rparr>"
        have lt: "write_loop w1 t [] = write_loop w2 r [ea]"
          unfolding nl(1) write_loop_nl [OF nl(2)] using col1
          by (simp add: tag_match_column w2_def ea_def)
        have rt: "write_loop w (s @ t) [] = write_loop w2 r [esa]"
          unfolding eq write_loop_nl [OF nn] using hd'
          by (simp add: tm' w2_def esa_def w1_def)
        have bytes: "bytes_of e1 @ bytes_of ea = bytes_of esa"
          by (simp add: e1_def ea_def esa_def bytes_of_def)
        have a1: "fst (write_loop w2 r [ea]) = fst (write_loop w2 r [esa])"
          using write_loop_fst_acc [of w2 r "[ea]"] write_loop_fst_acc [of w2 r "[esa]"] by simp
        have a2: "snd (write_loop w2 r [ea]) = [ea] @ snd (write_loop w2 r [])"
          by (rule write_loop_snd_acc)
        have a3: "snd (write_loop w2 r [esa]) = [esa] @ snd (write_loop w2 r [])"
          by (rule write_loop_snd_acc)
        show ?thesis
          unfolding l fst_conv snd_conv wr lt rt a1 a2 a3 using bytes
          by (simp add: console_bytes_def)
      qed
    qed
  qed
qed

text \<open>The same for two calls of \<open>write\<close>, from any state of the writer.\<close>

lemma write_chunks:
  "fst (OutputWriter_write (fst (OutputWriter_write w s)) t) = fst (OutputWriter_write w (s @ t))
   \<and> console_bytes (snd (OutputWriter_write w s))
       @ console_bytes (snd (OutputWriter_write (fst (OutputWriter_write w s)) t))
     = console_bytes (snd (OutputWriter_write w (s @ t)))"
proof (cases "buffered_output w = []")
  case True
  then show ?thesis
    using write_loop_append [of w s t] by (simp add: OutputWriter_write_def)
next
  case False
  then show ?thesis
    using write_loop_append [of "w\<lparr>buffered_output := []\<rparr>" "buffered_output w @ s" t]
    by (simp add: OutputWriter_write_def)
qed

section \<open>The claims about OutputWriter\<close>

text \<open>
  C1, as the code has it. A fresh \<open>OutputWriter\<close> that is given the single chunk
  \<open>"I: hello\n"\<close> writes \<open>"I: hello\n"\<close> followed by the reset escape \<open>ESC [0m\<close>.
  No color escape is put in front, because \<open>COLORS['I']\<close> is the empty string; but the
  tag was found in \<open>COLORS\<close>, so \<open>colored\<close> is set and the reset is appended behind the
  newline.
\<close>

theorem C1_info_line_gets_reset:
  "OutputWriter_write OutputWriter_init (''I: hello'' @ [NL]) =
     (\<lparr>buffered_output = [], column = 0, colored = True\<rparr>,
      [\<lparr>start_column = 0, tagged = True, prefix_str = [],
        line_string = ''I: hello'' @ [NL], suffix_str = NO_COLOR\<rparr>])
   \<and> console_bytes (snd (OutputWriter_write OutputWriter_init (''I: hello'' @ [NL])))
       = ''I: hello'' @ [CHR 0x0A] @ [CHR 0x1B] @ ''[0m''"
  by (simp add: writer_eval)

text \<open>
  C1, as the claim states it: the bytes written would be exactly \<open>"I: hello\n"\<close>, with
  no reset escape added. They are not.
\<close>

theorem C1_info_line_unmodified_counterexample:
  "console_bytes (snd (OutputWriter_write OutputWriter_init (''I: hello'' @ [NL])))
     \<noteq> ''I: hello'' @ [NL]"
  by (simp add: writer_eval)

text \<open>
  C3, as the claim states it: what was written, without the inserted escapes, would
  always be the concatenation of the chunks. After the single chunk \<open>"W"\<close> on a fresh
  writer nothing has been written yet: the byte waits in \<open>buffered_output\<close>.
\<close>

theorem C3_payload_counterexample:
  "payload (snd (write_all OutputWriter_init [''W''])) \<noteq> concat [''W'']"
  by (simp add: writer_eval)

text \<open>
  C3, as the code has it. For every writer and every sequence of chunks, the bytes
  written without the inserted escapes, followed by the bytes that wait in
  \<open>buffered_output\<close> afterwards, are the bytes that waited there before followed by the
  concatenation of the chunks. No byte is dropped and none is written twice; a byte at
  the start of a line is held back until more input decides the prefix.
\<close>

theorem C3_payload_and_pending:
  "payload (snd (write_all w cs)) @ buffered_output (fst (write_all w cs))
     = buffered_output w @ concat cs"
  by (rule write_all_payload)

text \<open>
  C6. From any state of the writer, the chunks \<open>"W"\<close> and \<open>":"\<close> one after the other
  put the same bytes on the console as the single chunk \<open>"W:"\<close>, and leave the writer in
  the same state.
\<close>

theorem C6_split_tag:
  "console_bytes (snd (write_all w [''W'', '':''])) = console_bytes (snd (write_all w [''W:'']))
   \<and> fst (write_all w [''W'', '':'']) = fst (write_all w [''W:''])"
  using write_chunks [of w "''W''" "'':''"]
  by (simp add: split_beta)

text \<open>C6 on a fresh writer: both ways write the yellow escape and then \<open>"W:"\<close>.\<close>

theorem C6_split_tag_witness:
  "console_bytes (snd (write_all OutputWriter_init [''W'', '':''])) = ESC # ''[1;33mW:''
   \<and> console_bytes (snd (write_all OutputWriter_init [''W:''])) = ESC # ''[1;33mW:''"
proof -
  have "console_bytes (snd (write_all OutputWriter_init [''W:''])) = ESC # ''[1;33mW:''"
    by (simp add: writer_eval)
  with C6_split_tag [of OutputWriter_init] show ?thesis by simp
qed

text \<open>
  C7. Once \<open>colored\<close> is set it stays set through every later call of \<open>write\<close>, and
  every segment written from then on that ends in a newline is followed by the reset
  escape, whether or not its own line had a tag.
\<close>

theorem C7_colored_never_reset:
  "colored w \<Longrightarrow>
   colored (fst (write_all w cs)) \<and>
   (\<forall>e\<in>set (snd (write_all w cs)).
      line_string e \<noteq> [] \<and> last (line_string e) = NL \<longrightarrow> suffix_str e = NO_COLOR)"
  using write_all_colored_reset [of w cs]
  by (simp add: list_all_iff reset_after_nl_def ends_line_def)

text \<open>
  C7 on the writer that has written \<open>"E: oops\n"\<close>: the line \<open>"plain\n"\<close> that follows
  has no tag and no prefix, and still the reset escape behind it.
\<close>

theorem C7_colored_never_reset_witness:
  "colored (fst (OutputWriter_write OutputWriter_init (''E: oops'' @ [NL])))
   \<and> colored (fst (write_all (fst (OutputWriter_write OutputWriter_init (''E: oops'' @ [NL])))
                    [''plain'' @ [NL]]))
   \<and> snd (write_all (fst (OutputWriter_write OutputWriter_init (''E: oops'' @ [NL])))
            [''plain'' @ [NL]])
       = [\<lparr>start_column = 0, tagged = False, prefix_str = [],
           line_string = ''plain'' @ [NL], suffix_str = NO_COLOR\<rparr>]"
proof -
  have c: "colored (fst (OutputWriter_write OutputWriter_init (''E: oops'' @ [NL])))"
    by (simp add: writer_eval)
  have ev: "snd (write_all (fst (OutputWriter_write OutputWriter_init (''E: oops'' @ [NL])))
                  [''plain'' @ [NL]])
       = [\<lparr>start_column = 0, tagged = False, prefix_str = [],
           line_string = ''plain'' @ [NL], suffix_str = NO_COLOR\<rparr>]"
    by (simp add: writer_eval split_beta)
  from C7_colored_never_reset [OF c, of "[''plain'' @ [NL]]"] c ev show ?thesis
    by simp
qed

text \<open>
  C9. After every call of \<open>write\<close>, from any state of the writer, fewer than 2 bytes
  wait in \<open>buffered_output\<close>; and every segment written in the call for which the
  \<open>COLORS\<close> branch was taken, or that has a prefix, was written at column 0.
\<close>

theorem C9_pending_and_column:
  "length (buffered_output (fst (OutputWriter_write w s))) < 2
   \<and> (\<forall>e\<in>set (snd (OutputWriter_write w s)).
        tagged e \<or> prefix_str e \<noteq> [] \<longrightarrow> start_column e = 0)"
  using write_buffered [of w s] write_tagged [of w s]
  by (simp add: list_all_iff at_line_start_def)

text \<open>
  C9 on a fresh writer and the chunk \<open>"E: x\n>"\<close>: the tagged line is written from
  column 0 and the one byte behind the newline waits.
\<close>

theorem C9_pending_and_column_witness:
  "length (buffered_output (fst (OutputWriter_write OutputWriter_init (''E: x'' @ [NL] @ ''>'')))) < 2
   \<and> OutputWriter_write OutputWriter_init (''E: x'' @ [NL] @ ''>'')
       = (\<lparr>buffered_output = ''>'', column = 0, colored = True\<rparr>,
          [\<lparr>start_column = 0, tagged = True, prefix_str = ESC # ''[1;31m'',
            line_string = ''E: x'' @ [NL], suffix_str = NO_COLOR\<rparr>])"
proof -
  have ev: "OutputWriter_write OutputWriter_init (''E: x'' @ [NL] @ ''>'')
       = (\<lparr>buffered_output = ''>'', column = 0, colored = True\<rparr>,
          [\<lparr>start_column = 0, tagged = True, prefix_str = ESC # ''[1;31m'',
            line_string = ''E: x'' @ [NL], suffix_str = NO_COLOR\<rparr>])"
    by (simp add: writer_eval)
  from C9_pending_and_column [of OutputWriter_init "''E: x'' @ [NL] @ ''>''"]
  have "length (buffered_output (fst (OutputWriter_write OutputWriter_init
          (''E: x'' @ [NL] @ ''>'')))) < 2"
    by (rule conjunct1)
  with ev show ?thesis by simp
qed

section \<open>The claims about is_teensy\<close>

text \<open>
  C4. \<open>is_teensy\<close> returns \<open>False\<close> for a device without \<open>ID_VENDOR\<close> and for one whose
  \<open>ID_VENDOR\<close> does not start with \<open>Teensy\<close>, whatever the serial number asked for.
  For a device whose \<open>ID_VENDOR\<close> starts with \<open>Teensy\<close> it returns \<open>True\<close> when no serial
  number is asked for, and when one is asked for it returns \<open>True\<close> exactly if the
  device's \<open>ID_SERIAL_SHORT\<close> is that serial number.
\<close>

theorem C4_is_teensy:
  "(properties dev ''ID_VENDOR'' = None \<longrightarrow> is_teensy dev serial_num = Inr False)
   \<and> (\<forall>v. properties dev ''ID_VENDOR'' = Some v \<and> \<not> startswith v ''Teensy''
          \<longrightarrow> is_teensy dev serial_num = Inr False)
   \<and> (\<forall>v. properties dev ''ID_VENDOR'' = Some v \<and> startswith v ''Teensy''
          \<longrightarrow> is_teensy dev None = Inr True
              \<and> (\<forall>n. is_teensy dev (Some n) = Inr True
                       \<longleftrightarrow> properties dev ''ID_SERIAL_SHORT'' = Some n))"
  by (auto simp: is_teensy_def getitem_def split: option.splits)

text \<open>
  C4 on three devices: one without a vendor, one of another vendor, and a Teensy with
  the serial number 12345, asked for by no serial number, by its own and by another.
\<close>

theorem C4_is_teensy_witness:
  "is_teensy \<lparr>device_node = ''/dev/ttyS0'', action = None, properties = Map.empty\<rparr>
     (Some ''12345'') = Inr False
   \<and> is_teensy \<lparr>device_node = ''/dev/ttyUSB0'', action = None,
                 properties = [''ID_VENDOR'' \<mapsto> ''FTDI'', ''ID_SERIAL_SHORT'' \<mapsto> ''12345'']\<rparr>
       (Some ''12345'') = Inr False
   \<and> is_teensy \<lparr>device_node = ''/dev/ttyACM0'', action = None,
                 properties = [''ID_VENDOR'' \<mapsto> ''Teensyduino'',
                               ''ID_SERIAL_SHORT'' \<mapsto> ''12345'']\<rparr>
       None = Inr True
   \<and> is_teensy \<lparr>device_node = ''/dev/ttyACM0'', action = None,
                 properties = [''ID_VENDOR'' \<mapsto> ''Teensyduino'',
                               ''ID_SERIAL_SHORT'' \<mapsto> ''12345'']\<rparr>
       (Some ''12345'') = Inr True
   \<and> is_teensy \<lparr>device_node = ''/dev/ttyACM0'', action = None,
                 properties = [''ID_VENDOR'' \<mapsto> ''Teensyduino'',
                               ''ID_SERIAL_SHORT'' \<mapsto> ''12345'']\<rparr>
       (Some ''777'') \<noteq> Inr True"
  using
    C4_is_teensy [of "\<lparr>device_node = ''/dev/ttyS0'', action = None, properties = Map.empty\<rparr>"
                     "Some ''12345''"]
    C4_is_teensy [of "\<lparr>device_node = ''/dev/ttyUSB0'', action = None,
                 properties = [''ID_VENDOR'' \<mapsto> ''FTDI'', ''ID_SERIAL_SHORT'' \<mapsto> ''12345'']\<rparr>"
                     "Some ''12345''"]
    C4_is_teensy [of "\<lparr>device_node = ''/dev/ttyACM0'', action = None,
                 properties = [''ID_VENDOR'' \<mapsto> ''Teensyduino'',
                               ''ID_SERIAL_SHORT'' \<mapsto> ''12345'']\<rparr>" None]
  by (simp add: startswith_def)

text \<open>
  C10. For a device whose \<open>ID_VENDOR\<close> starts with \<open>Teensy\<close> and that has no
  \<open>ID_SERIAL_SHORT\<close>, \<open>is_teensy\<close> with a serial number raises \<open>KeyError\<close>: it returns
  neither \<open>True\<close> nor \<open>False\<close>.
\<close>

theorem C10_is_teensy_key_error:
  "properties dev ''ID_VENDOR'' = Some v \<Longrightarrow> startswith v ''Teensy'' \<Longrightarrow>
   properties dev ''ID_SERIAL_SHORT'' = None \<Longrightarrow>
   is_teensy dev (Some n) = Inl KeyError"
  by (simp add: is_teensy_def getitem_def)

text \<open>C10 on a Teensy that reports a vendor and no serial number.\<close>

theorem C10_is_teensy_key_error_witness:
  "is_teensy \<lparr>device_node = ''/dev/ttyACM0'', action = Some ''add'',
               properties = [''ID_VENDOR'' \<mapsto> ''Teensyduino'']\<rparr>
     (Some ''12345'') = Inl KeyError"
  by (rule C10_is_teensy_key_error [where v = "''Teensyduino''"])
     (simp_all add: startswith_def)

section \<open>The claims about teensy_mon\<close>

text \<open>
  C5. An event of the monitor ends the call of \<open>teensy_mon\<close> exactly if its device node
  is the port of the session and its action is \<open>remove\<close>. Then the serial port is closed
  and the function returns, whatever else is ready. Any other event of the monitor leaves
  the session as it is, and the loop goes on with the next ready entry.
\<close>

theorem C5_monitor_event:
  "(fst (handle_event s (Monitor_ready dev)) = Returned
      \<longleftrightarrow> device_node dev = port_name s \<and> action dev = Some ''remove'')
   \<and> (device_node dev = port_name s \<and> action dev = Some ''remove''
        \<longrightarrow> \<not> serial_open (snd (handle_event s (Monitor_ready dev)))
            \<and> service s (Monitor_ready dev # evs) = handle_event s (Monitor_ready dev)
            \<and> teensy_mon_loop s ((Monitor_ready dev # evs) # polls)
                = handle_event s (Monitor_ready dev))
   \<and> (\<not> (device_node dev = port_name s \<and> action dev = Some ''remove'')
        \<longrightarrow> handle_event s (Monitor_ready dev) = (Running, s)
            \<and> service s (Monitor_ready dev # evs) = service s evs)"
  by auto

text \<open>
  C5 on a session on \<open>/dev/ttyACM0\<close>: the removal of \<open>/dev/ttyACM1\<close> is ignored, the
  removal of \<open>/dev/ttyACM0\<close> ends the session.
\<close>

theorem C5_monitor_event_witness:
  "handle_event
     \<lparr>port_name = ''/dev/ttyACM0'', serial_open = True, writer_of = OutputWriter_init,
      stdout = [], serial_tx = []\<rparr>
     (Monitor_ready \<lparr>device_node = ''/dev/ttyACM1'', action = Some ''remove'',
                     properties = Map.empty\<rparr>)
   = (Running,
      \<lparr>port_name = ''/dev/ttyACM0'', serial_open = True, writer_of = OutputWriter_init,
       stdout = [], serial_tx = []\<rparr>)
   \<and> fst (handle_event
          \<lparr>port_name = ''/dev/ttyACM0'', serial_open = True, writer_of = OutputWriter_init,
           stdout = [], serial_tx = []\<rparr>
          (Monitor_ready \<lparr>device_node = ''/dev/ttyACM0'', action = Some ''remove'',
                          properties = Map.empty\<rparr>)) = Returned
   \<and> \<not> serial_open (snd (handle_event
          \<lparr>port_name = ''/dev/ttyACM0'', serial_open = True, writer_of = OutputWriter_init,
           stdout = [], serial_tx = []\<rparr>
          (Monitor_ready \<lparr>device_node = ''/dev/ttyACM0'', action = Some ''remove'',
                          properties = Map.empty\<rparr>)))"
  using
    C5_monitor_event [of
      "\<lparr>port_name = ''/dev/ttyACM0'', serial_open = True, writer_of = OutputWriter_init,
        stdout = [], serial_tx = []\<rparr>"
      "\<lparr>device_node = ''/dev/ttyACM1'', action = Some ''remove'', properties = Map.empty\<rparr>"]
    C5_monitor_event [of
      "\<lparr>port_name = ''/dev/ttyACM0'', serial_open = True, writer_of = OutputWriter_init,
        stdout = [], serial_tx = []\<rparr>"
      "\<lparr>device_node = ''/dev/ttyACM0'', action = Some ''remove'', properties = Map.empty\<rparr>"]
  by simp

text \<open>
  C8. When \<open>serial_port.read\<close> raises \<open>SerialException\<close> the call of \<open>teensy_mon\<close> ends
  as it does on the removal of its own device: the same message is printed, the serial
  port is closed and the function returns, so that \<open>main\<close> is waiting for a device again.
  No event of the monitor is needed for it, and what else is ready or would become ready
  is not looked at.
\<close>

theorem C8_read_failure:
  "handle_event s (Serial_ready (Inl SerialException))
     = (Returned, s\<lparr>stdout := stdout s @ [print_disconnected (port_name s)],
                     serial_open := False\<rparr>)
   \<and> handle_event s (Serial_ready (Inl SerialException))
     = handle_event s (Monitor_ready \<lparr>device_node = port_name s, action = Some ''remove'',
                                       properties = props\<rparr>)
   \<and> service s (Serial_ready (Inl SerialException) # evs)
     = handle_event s (Serial_ready (Inl SerialException))
   \<and> teensy_mon_loop s ((Serial_ready (Inl SerialException) # evs) # polls)
     = handle_event s (Serial_ready (Inl SerialException))
   \<and> main_after (fst (handle_event s (Serial_ready (Inl SerialException))))
     = Waiting_for_device"
  by (simp add: main_after_def)

text \<open>C8 on a session on \<open>/dev/ttyACM0\<close> in which only the serial port was ready.\<close>

theorem C8_read_failure_witness:
  "teensy_mon_loop
     \<lparr>port_name = ''/dev/ttyACM0'', serial_open = True, writer_of = OutputWriter_init,
      stdout = [], serial_tx = []\<rparr>
     [[Serial_ready (Inl SerialException)]]
   = (Returned,
      \<lparr>port_name = ''/dev/ttyACM0'', serial_open = False, writer_of = OutputWriter_init,
       stdout = [print_disconnected ''/dev/ttyACM0''], serial_tx = []\<rparr>)"
  using C8_read_failure [of
      "\<lparr>port_name = ''/dev/ttyACM0'', serial_open = True, writer_of = OutputWriter_init,
        stdout = [], serial_tx = []\<rparr>" _ "[]" "[]"]
  by simp

text \<open>
  C2, on the code. A session on \<open>/dev/ttyACM0\<close> is connected, standard input delivers
  \<open>"a"\<close> and \<open>serial_port.write\<close> raises \<open>SerialException\<close>. Nothing in \<open>teensy_mon\<close>
  catches it: the function is left by the exception with the serial port still open, and
  \<open>main\<close> ends the process instead of waiting for a device.
\<close>

theorem C2_write_failure_escapes:
  "teensy_mon
     \<lparr>device_node = ''/dev/ttyACM0'', action = Some ''add'',
      properties = [''ID_VENDOR'' \<mapsto> ''Teensyduino'', ''ID_SERIAL_SHORT'' \<mapsto> ''12345'']\<rparr>
     None [[Stdin_ready ''a'' (Some SerialException)]]
   = (Raised SerialException,
      \<lparr>port_name = ''/dev/ttyACM0'', serial_open = True, writer_of = OutputWriter_init,
       stdout = [print_connected ''/dev/ttyACM0'' ''12345''], serial_tx = []\<rparr>)
   \<and> main_after (fst (teensy_mon
     \<lparr>device_node = ''/dev/ttyACM0'', action = Some ''add'',
      properties = [''ID_VENDOR'' \<mapsto> ''Teensyduino'', ''ID_SERIAL_SHORT'' \<mapsto> ''12345'']\<rparr>
     None [[Stdin_ready ''a'' (Some SerialException)]])) = Process_ended"
  by (simp add: teensy_mon_def getitem_def main_after_def)

end
